theory Spec2Isabelle
  imports Main "HOL-Library.AList"
begin

section \<open>Data model\<close>

text \<open>
  The session-secret manager (\<^verbatim>\<open>src/crypto/keychainManager.ts\<close>) and the secure-note
  retriever (\<^verbatim>\<open>src/middleware/getSecureNotes.ts\<close>) of the vault client, as functions
  that pass the state of the outside world explicitly.

  A JavaScript string is the list of its code units and a Node \<^verbatim>\<open>Buffer\<close> the list of
  its bytes; both are lists of \<^typ>\<open>char\<close>. The conversions between the two (UTF-8, hex,
  base64) are functions of Node and are parameters of the model, as is
  \<^verbatim>\<open>String.prototype.toLowerCase\<close>.
\<close>

type_synonym buffer = "char list"

text \<open>
  Errors. \<open>Error msg\<close> is \<^verbatim>\<open>new Error(msg)\<close> thrown by the source itself;
  \<open>TypeError\<close> is what the runtime throws when a property of \<^verbatim>\<open>undefined\<close> is read;
  \<open>DecryptionFailed\<close> and \<open>RegistrationFailed\<close> are the failures of the
  cipher and of the device registration, which live outside these two files.
\<close>

datatype error = Error string | TypeError | DecryptionFailed | RegistrationFailed

record Secrets =
  login :: string
  masterPassword :: string
  accessKey :: string
  secretKey :: string

text \<open>\<^verbatim>\<open>DeviceKeysWithLogin\<close>: one row of the \<^verbatim>\<open>device\<close> table.\<close>

record DeviceKeysWithLogin =
  dk_login :: string
  dk_accessKey :: string
  secretKeyEncrypted :: string
  masterPasswordEncrypted :: string
  localKeyEncrypted :: string

text \<open>The \<^verbatim>\<open>EncryptedData\<close> object that \<^verbatim>\<open>getDerivationParametersForLocalKey\<close> fills in.\<close>

record KeyDerivation =
  algo :: string
  saltLength :: nat
  tCost :: nat
  mCost :: nat
  parallelism :: nat

record CipherConfig =
  encryption :: string
  cipherMode :: string
  ivLength :: nat

record CipherData =
  salt :: buffer
  iv :: buffer
  hash :: buffer
  encryptedPayload :: buffer

record EncryptedData =
  keyDerivation :: KeyDerivation
  cipherConfig :: CipherConfig
  cipherData :: CipherData

text \<open>
  Modelled from the spec: the row type of the \<^verbatim>\<open>transactions\<close> table
  (\<^verbatim>\<open>BackupEditTransaction\<close> of \<^verbatim>\<open>types.ts\<close>, not among the sources), with the
  columns the spec lists: login, action, type and payload.
\<close>

record BackupEditTransaction =
  t_login :: string
  action :: string
  t_type :: string
  payload :: string

text \<open>
  Modelled from the spec: \<^verbatim>\<open>SecureNoteTransactionContent\<close> (of \<^verbatim>\<open>types.ts\<close>), an
  ordered list of (attribute key, data value) pairs. An entry is
  \<^verbatim>\<open>{_attributes: {key}, _cdata}\<close>; the list is \<^verbatim>\<open>root.KWSecureNote.KWDataItem\<close>.
\<close>

record KWDataItem =
  key :: string
  cdata :: string

type_synonym SecureNoteTransactionContent = "KWDataItem list"

text \<open>
  A \<^verbatim>\<open>VaultNote\<close> is a plain object: its properties in insertion order, each name once.
\<close>

type_synonym VaultNote = "(string \<times> string) list"

section \<open>The outside world\<close>

text \<open>
  Every call that leaves the two source files is recorded in a trace, so that a theorem
  can say which collaborators a run has used, with what, and in which order.
\<close>

datatype event =
    Inquirer_login
  | Inquirer_masterPassword
  | Keytar_getPassword string string
  | Keytar_setPassword string string string
  | GetDerivate string EncryptedData
  | RegisterDevice string
  | Crypto_randomBytes nat
  | EncryptAES buffer buffer
  | Decrypt string buffer
  | Db_replace_device DeviceKeysWithLogin
  | Db_select_transactions string
  | DecryptTransaction BackupEditTransaction
  | AskSecureNoteChoice "VaultNote list" bool
  | Winston_debug string
  | Console_log "string option"

text \<open>
  The state: the OS keychain (service and account to password), the two tables of the
  local database, and the trace.
\<close>

record world =
  keychain :: "string \<times> string \<rightharpoonup> string"
  device :: "DeviceKeysWithLogin list"
  transactions :: "BackupEditTransaction list"
  trace :: "event list"

text \<open>
  The deterministic functions the sources import: the cipher's \<^verbatim>\<open>decrypt\<close>, the
  password derivation, the digest, the decryption of a transaction, and Node's string
  and buffer conversions.
\<close>

record lib =
  decrypt :: "string \<Rightarrow> buffer \<Rightarrow> error + buffer"
  getDerivateUsingParametersFromEncryptedData :: "string \<Rightarrow> EncryptedData \<Rightarrow> buffer"
  sha512 :: "string \<Rightarrow> buffer"
  decryptTransaction :: "BackupEditTransaction \<Rightarrow> Secrets \<Rightarrow> error + SecureNoteTransactionContent"
  Buffer_from_utf8 :: "string \<Rightarrow> buffer"
  Buffer_from_hex :: "string \<Rightarrow> buffer"
  Buffer_from_base64 :: "string \<Rightarrow> buffer"
  toString_utf8 :: "buffer \<Rightarrow> string"
  toString_hex :: "buffer \<Rightarrow> string"
  toString_base64 :: "buffer \<Rightarrow> string"
  toLowerCase :: "string \<Rightarrow> string"

text \<open>
  What the outside answers during one call: the user at the prompts, the registration
  server, the random source, the cipher's \<^verbatim>\<open>encryptAES\<close> (it draws a fresh
  initialisation vector, so its output belongs to the call), and the user's choice among
  several notes.

  \<^verbatim>\<open>crypto.randomBytes(n)\<close> returns a buffer or throws when the bytes cannot be
  generated: \<open>Inl e\<close> is the throw, \<open>Inr (Some k)\<close> the buffer. \<open>Inr None\<close> is a falsy
  result, which Node does not give and the source tests for all the same.
\<close>

record io =
  inquirer_login :: string
  inquirer_masterPassword :: string
  registerDevice :: "string \<Rightarrow> error + string \<times> string"
  randomBytes :: "nat \<Rightarrow> error + buffer option"
  encryptAES :: "buffer \<Rightarrow> buffer \<Rightarrow> string"
  askSecureNoteChoice :: "VaultNote list \<Rightarrow> bool \<Rightarrow> VaultNote"

definition log :: "event \<Rightarrow> world \<Rightarrow> world" where
  "log e w = w\<lparr>trace := trace w @ [e]\<rparr>"

text \<open>
  Modelled from the spec: the \<^verbatim>\<open>device\<close> table has \<^verbatim>\<open>login\<close> as its primary key (the
  schema is not among the sources), so \<^verbatim>\<open>REPLACE INTO device\<close> deletes the row with the
  same login, if any, and inserts the new one.
\<close>

definition replace_into :: "DeviceKeysWithLogin list \<Rightarrow> DeviceKeysWithLogin \<Rightarrow> DeviceKeysWithLogin list" where
  "replace_into rows r = filter (\<lambda>x. dk_login x \<noteq> dk_login r) rows @ [r]"

section \<open>keychainManager.ts\<close>

definition SERVICE :: string where
  "SERVICE = ''dashlane-cli''"

text \<open>\<^verbatim>\<open>!masterPassword\<close> for an optional string: \<^verbatim>\<open>undefined\<close> and the empty string are falsy.\<close>

fun falsy :: "string option \<Rightarrow> bool" where
  "falsy None = True"
| "falsy (Some s) = (s = [])"

definition keytar_setPassword :: "string \<Rightarrow> string \<Rightarrow> string \<Rightarrow> world \<Rightarrow> world" where
  "keytar_setPassword service account password w =
     log (Keytar_setPassword service account password)
       (w\<lparr>keychain := (keychain w)((service, account) \<mapsto> password)\<rparr>)"

text \<open>
  \<^verbatim>\<open>setLocalKey\<close>. A \<^verbatim>\<open>Buffer\<close> is an object and so truthy whatever its length: both
  tests \<^verbatim>\<open>!localKey\<close> ask only whether there is a buffer.
\<close>

definition setLocalKey :: "lib \<Rightarrow> io \<Rightarrow> string \<Rightarrow> buffer option \<Rightarrow> world \<Rightarrow> (error + buffer) \<times> world" where
  "setLocalKey l i login' localKey w =
     (case localKey of
        Some k \<Rightarrow> (Inr k, keytar_setPassword SERVICE login' (toString_base64 l k) w)
      | None \<Rightarrow>
          (let w1 = log (Crypto_randomBytes 32) w in
           case randomBytes i 32 of
             Inl e \<Rightarrow> (Inl e, w1)
           | Inr None \<Rightarrow> (Inl (Error ''Unable to generate AES local key''), w1)
           | Inr (Some k) \<Rightarrow>
               (Inr k, keytar_setPassword SERVICE login' (toString_base64 l k) w1)))"

definition getLocalKey :: "lib \<Rightarrow> string \<Rightarrow> world \<Rightarrow> buffer option \<times> world" where
  "getLocalKey l login' w =
     (let localKeyEncoded = keychain w (SERVICE, login');
          w1 = log (Keytar_getPassword SERVICE login') w
      in if falsy localKeyEncoded then (None, w1)
         else (Some (Buffer_from_base64 l (the localKeyEncoded)), w1))"

definition getDerivationParametersForLocalKey :: "lib \<Rightarrow> string \<Rightarrow> EncryptedData" where
  "getDerivationParametersForLocalKey l login' =
     \<lparr>keyDerivation =
        \<lparr>algo = ''argon2d'', saltLength = 16, tCost = 3, mCost = 32768, parallelism = 2\<rparr>,
      cipherConfig =
        \<lparr>encryption = ''aes256'', cipherMode = ''cbchmac'', ivLength = 0\<rparr>,
      cipherData =
        \<lparr>salt = take 16 (sha512 l login'), iv = [], hash = [], encryptedPayload = []\<rparr>\<rparr>"

text \<open>\<^verbatim>\<open>promptMasterPassword\<close>, called where the password handed in is falsy.\<close>

definition promptMasterPassword :: "io \<Rightarrow> world \<Rightarrow> string \<times> world" where
  "promptMasterPassword i w = (inquirer_masterPassword i, log Inquirer_masterPassword w)"

definition masterPassword_or_prompt :: "io \<Rightarrow> string option \<Rightarrow> world \<Rightarrow> string \<times> world" where
  "masterPassword_or_prompt i mp w =
     (if falsy mp then promptMasterPassword i w else (the mp, w))"

definition derive :: "lib \<Rightarrow> string \<Rightarrow> string \<Rightarrow> world \<Rightarrow> buffer \<times> world" where
  "derive l mp login' w =
     (let p = getDerivationParametersForLocalKey l login'
      in (getDerivateUsingParametersFromEncryptedData l mp p, log (GetDerivate mp p) w))"

definition do_decrypt :: "lib \<Rightarrow> string \<Rightarrow> buffer \<Rightarrow> world \<Rightarrow> (error + buffer) \<times> world" where
  "do_decrypt l blob k w = (decrypt l blob k, log (Decrypt blob k) w)"

definition do_encryptAES :: "io \<Rightarrow> buffer \<Rightarrow> buffer \<Rightarrow> world \<Rightarrow> string \<times> world" where
  "do_encryptAES i k content w = (encryptAES i k content, log (EncryptAES k content) w)"

definition getSecretsWithoutDB ::
  "lib \<Rightarrow> io \<Rightarrow> string \<Rightarrow> string option \<Rightarrow> buffer option \<Rightarrow> world \<Rightarrow> (error + Secrets) \<times> world" where
  "getSecretsWithoutDB l i login' mp localKey w =
     (let (masterPassword', w1) = masterPassword_or_prompt i mp w;
          (derivate, w2) = derive l masterPassword' login' w1;
          w3 = log (RegisterDevice login') w2
      in case registerDevice i login' of
           Inl e \<Rightarrow> (Inl e, w3)
         | Inr (deviceAccessKey, deviceSecretKey) \<Rightarrow>
             (case (case localKey of
                      None \<Rightarrow> setLocalKey l i login' None w3
                    | Some k \<Rightarrow> (Inr k, w3)) of
                (Inl e, w4) \<Rightarrow> (Inl e, w4)
              | (Inr localKey', w4) \<Rightarrow>
                  (let (deviceSecretKeyEncrypted, w5) =
                         do_encryptAES i localKey' (Buffer_from_hex l deviceSecretKey) w4;
                       (masterPasswordEncrypted', w6) =
                         do_encryptAES i localKey' (Buffer_from_utf8 l masterPassword') w5;
                       (localKeyEncrypted', w7) = do_encryptAES i derivate localKey' w6;
                       row = \<lparr>dk_login = login', dk_accessKey = deviceAccessKey,
                              secretKeyEncrypted = deviceSecretKeyEncrypted,
                              masterPasswordEncrypted = masterPasswordEncrypted',
                              localKeyEncrypted = localKeyEncrypted'\<rparr>;
                       w8 = log (Db_replace_device row) (w7\<lparr>device := replace_into (device w7) row\<rparr>)
                   in (Inr \<lparr>login = login', masterPassword = masterPassword',
                            accessKey = deviceAccessKey, secretKey = deviceSecretKey\<rparr>, w8))))"

definition getSecretsWithoutKeychain ::
  "lib \<Rightarrow> io \<Rightarrow> string \<Rightarrow> DeviceKeysWithLogin \<Rightarrow> string option \<Rightarrow> world \<Rightarrow> (error + Secrets) \<times> world" where
  "getSecretsWithoutKeychain l i login' deviceKeys mp w =
     (let (masterPassword', w1) = masterPassword_or_prompt i mp w;
          (derivate, w2) = derive l masterPassword' login' w1
      in case do_decrypt l (localKeyEncrypted deviceKeys) derivate w2 of
           (Inl e, w3) \<Rightarrow> (Inl e, w3)
         | (Inr localKey, w3) \<Rightarrow>
             (case do_decrypt l (secretKeyEncrypted deviceKeys) localKey w3 of
                (Inl e, w4) \<Rightarrow> (Inl e, w4)
              | (Inr sk, w4) \<Rightarrow>
                  (case setLocalKey l i login' (Some localKey) w4 of
                     (Inl e, w5) \<Rightarrow> (Inl e, w5)
                   | (Inr _, w5) \<Rightarrow>
                       (Inr \<lparr>login = login', masterPassword = masterPassword',
                             accessKey = dk_accessKey deviceKeys,
                             secretKey = toString_hex l sk\<rparr>, w5))))"

definition getSecrets ::
  "lib \<Rightarrow> io \<Rightarrow> DeviceKeysWithLogin option \<Rightarrow> string option \<Rightarrow> world \<Rightarrow> (error + Secrets) \<times> world" where
  "getSecrets l i deviceKeys mp w =
     (let (login', w1) =
            (case deviceKeys of
               Some dk \<Rightarrow> (dk_login dk, w)
             | None \<Rightarrow> (inquirer_login i, log Inquirer_login w));
          (localKey, w2) = getLocalKey l login' w1
      in case deviceKeys of
           None \<Rightarrow> getSecretsWithoutDB l i login' mp localKey w2
         | Some dk \<Rightarrow>
             (case localKey of
                None \<Rightarrow> getSecretsWithoutKeychain l i login' dk mp w2
              | Some k \<Rightarrow>
                  (case (if falsy mp
                         then (case do_decrypt l (masterPasswordEncrypted dk) k w2 of
                                 (Inl e, w3) \<Rightarrow> (Inl e, w3)
                               | (Inr b, w3) \<Rightarrow> (Inr (toString_utf8 l b), w3))
                         else (Inr (the mp), w2)) of
                     (Inl e, w3) \<Rightarrow> (Inl e, w3)
                   | (Inr masterPassword', w3) \<Rightarrow>
                       (case do_decrypt l (secretKeyEncrypted dk) k w3 of
                          (Inl e, w4) \<Rightarrow> (Inl e, w4)
                        | (Inr sk, w4) \<Rightarrow>
                            (Inr \<lparr>login = login', masterPassword = masterPassword',
                                  accessKey = dk_accessKey dk,
                                  secretKey = toString_hex l sk\<rparr>, w4)))))"

section \<open>getSecureNotes.ts\<close>

text \<open>
  \<^verbatim>\<open>xs.map(f)\<close> where \<open>f\<close> may throw: the first element that throws ends the whole
  map with its error.
\<close>

fun try_map :: "('a \<Rightarrow> error + 'b) \<Rightarrow> 'a list \<Rightarrow> error + 'b list" where
  "try_map f [] = Inr []"
| "try_map f (x # xs) =
     (case f x of
        Inl e \<Rightarrow> Inl e
      | Inr y \<Rightarrow> (case try_map f xs of Inl e \<Rightarrow> Inl e | Inr ys \<Rightarrow> Inr (y # ys)))"

text \<open>\<^verbatim>\<open>xs.filter(p)\<close> where \<open>p\<close> may throw.\<close>

fun try_filter :: "('a \<Rightarrow> error + bool) \<Rightarrow> 'a list \<Rightarrow> error + 'a list" where
  "try_filter p [] = Inr []"
| "try_filter p (x # xs) =
     (case p x of
        Inl e \<Rightarrow> Inl e
      | Inr b \<Rightarrow>
          (case try_filter p xs of
             Inl e \<Rightarrow> Inl e
           | Inr ys \<Rightarrow> Inr (if b then x # ys else ys)))"

text \<open>
  \<^verbatim>\<open>Promise.all\<close> over promises that are all started: it resolves to the list of the
  values when every promise resolves and rejects when one rejects. The decryptions do not
  wait on one another; the model takes the rejection of the first transaction in list order.
\<close>

definition Promise_all :: "(error + 'a) list \<Rightarrow> error + 'a list" where
  "Promise_all ps = try_map (\<lambda>p. p) ps"

definition decryptSecureNotesTransactions ::
  "lib \<Rightarrow> BackupEditTransaction list \<Rightarrow> Secrets \<Rightarrow> world \<Rightarrow>
     (error + SecureNoteTransactionContent list) \<times> world" where
  "decryptSecureNotesTransactions l transactions' secrets w =
     (let secureNotesTransactions = filter (\<lambda>t. t_type t = ''SECURENOTE'') transactions';
          w1 = w\<lparr>trace := trace w @ map DecryptTransaction secureNotesTransactions\<rparr>
      in (Promise_all (map (\<lambda>t. decryptTransaction l t secrets) secureNotesTransactions), w1))"

text \<open>
  \<^verbatim>\<open>Object.fromEntries\<close>: a property keeps the place of its first entry and takes the
  value of its last one.
\<close>

definition fromEntries :: "(string \<times> string) list \<Rightarrow> VaultNote" where
  "fromEntries es = fold (\<lambda>(k, v) note. AList.update k v note) es []"

text \<open>
  One entry of the reshaping: \<^verbatim>\<open>key[0].toLowerCase() + key.slice(1)\<close>. For the empty key
  \<^verbatim>\<open>key[0]\<close> is \<^verbatim>\<open>undefined\<close> and the call of \<^verbatim>\<open>toLowerCase\<close> on it throws.
\<close>

definition beautifyEntry :: "lib \<Rightarrow> KWDataItem \<Rightarrow> error + string \<times> string" where
  "beautifyEntry l entry =
     (case key entry of
        [] \<Rightarrow> Inl TypeError
      | c # cs \<Rightarrow> Inr (toLowerCase l [c] @ cs, cdata entry))"

definition beautify :: "lib \<Rightarrow> SecureNoteTransactionContent \<Rightarrow> error + VaultNote" where
  "beautify l item =
     (case try_map (beautifyEntry l) item of
        Inl e \<Rightarrow> Inl e
      | Inr es \<Rightarrow> Inr (fromEntries es))"

text \<open>\<^verbatim>\<open>s.includes(t)\<close>: \<open>t\<close> occurs in \<open>s\<close> as a block of consecutive code units.\<close>

fun String_includes :: "string \<Rightarrow> string \<Rightarrow> bool" where
  "String_includes [] t = (t = [])"
| "String_includes (c # s) t = (take (length t) (c # s) = t \<or> String_includes s t)"

text \<open>
  The filter's test, \<^verbatim>\<open>item.title.toLowerCase().includes(canonicalTitleFilter)\<close>; a note
  with no \<^verbatim>\<open>title\<close> property makes it throw.
\<close>

definition title_matches :: "lib \<Rightarrow> string \<Rightarrow> VaultNote \<Rightarrow> error + bool" where
  "title_matches l canonicalTitleFilter item =
     (case map_of item ''title'' of
        None \<Rightarrow> Inl TypeError
      | Some t \<Rightarrow> Inr (String_includes (toLowerCase l t) canonicalTitleFilter))"

text \<open>
  \<^verbatim>\<open>matchedNotes.sort()\<close> with no comparator compares the elements by their conversion to
  a string; a list of fewer than two elements is returned with no comparison. A note
  converts through the \<^verbatim>\<open>toString\<close> it inherits to \<^verbatim>\<open>[object Object]\<close>, the same
  string for every note, and the sort is stable: the order is the one it was given. A
  note with a field \<^verbatim>\<open>toString\<close> of its own (from an attribute \<^verbatim>\<open>ToString\<close> or
  \<^verbatim>\<open>toString\<close>) hides the inherited function behind a value that cannot be called, its
  \<^verbatim>\<open>valueOf\<close> gives the object back, and the conversion throws a \<^verbatim>\<open>TypeError\<close>; in a
  sort of two or more elements every element is compared.
\<close>

definition Array_sort :: "VaultNote list \<Rightarrow> error + VaultNote list" where
  "Array_sort notes =
     (if 2 \<le> length notes \<and> list_ex (\<lambda>n. map_of n ''toString'' \<noteq> None) notes
      then Inl TypeError
      else Inr notes)"

text \<open>Lines 51 to 56: the candidates, from the reshaped notes and the filter.\<close>

definition matchNotes :: "lib \<Rightarrow> string option \<Rightarrow> VaultNote list \<Rightarrow> error + VaultNote list" where
  "matchNotes l titleFilter beautifiedNotes =
     (case (if falsy titleFilter then Inr beautifiedNotes
            else try_filter (title_matches l (toLowerCase l (the titleFilter))) beautifiedNotes) of
        Inl e \<Rightarrow> Inl e
      | Inr matched \<Rightarrow> Array_sort matched)"

text \<open>Lines 58 to 68: the choice of the note and its output.\<close>

definition selectNote :: "io \<Rightarrow> string option \<Rightarrow> VaultNote list \<Rightarrow> world \<Rightarrow> (error + unit) \<times> world" where
  "selectNote i titleFilter matchedNotes w =
     (case matchedNotes of
        [] \<Rightarrow> (Inl (Error ''No note found''), w)
      | [n] \<Rightarrow> (Inr (), log (Console_log (map_of n ''content'')) w)
      | _ \<Rightarrow>
          (let hasFilters = \<not> falsy titleFilter;
               selectedNote = askSecureNoteChoice i matchedNotes hasFilters;
               w1 = log (AskSecureNoteChoice matchedNotes hasFilters) w
           in (Inr (), log (Console_log (map_of selectedNote ''content'')) w1)))"

definition getNote :: "lib \<Rightarrow> io \<Rightarrow> string option \<Rightarrow> Secrets \<Rightarrow> world \<Rightarrow> (error + unit) \<times> world" where
  "getNote l i titleFilter secrets w =
     (let w1 = log (Winston_debug (''Retrieving: '' @ (if falsy titleFilter then [] else the titleFilter))) w;
          transactions' = filter (\<lambda>t. t_login t = login secrets \<and> action t = ''BACKUP_EDIT'')
                            (transactions w1);
          w2 = log (Db_select_transactions (login secrets)) w1
      in case decryptSecureNotesTransactions l transactions' secrets w2 of
           (Inl e, w3) \<Rightarrow> (Inl e, w3)
         | (Inr notesDecrypted, w3) \<Rightarrow>
             (case try_map (beautify l) notesDecrypted of
                Inl e \<Rightarrow> (Inl e, w3)
              | Inr beautifiedNotes \<Rightarrow>
                  (case matchNotes l titleFilter beautifiedNotes of
                     Inl e \<Rightarrow> (Inl e, w3)
                   | Inr matchedNotes \<Rightarrow> selectNote i titleFilter matchedNotes w3)))"

section \<open>Vocabulary of the statements\<close>

text \<open>The master password a call works with: the one handed in, or the user's answer.\<close>

definition effective_password :: "io \<Rightarrow> string option \<Rightarrow> string" where
  "effective_password i mp = (if falsy mp then inquirer_masterPassword i else the mp)"

text \<open>The Derivate of a password for a login.\<close>

definition derivate_of :: "lib \<Rightarrow> string \<Rightarrow> string \<Rightarrow> buffer" where
  "derivate_of l mp login' =
     getDerivateUsingParametersFromEncryptedData l mp (getDerivationParametersForLocalKey l login')"

text \<open>
  The row of the key hierarchy: the secret key and the master password encrypted under
  the local key \<open>lk\<close>, the local key encrypted under the Derivate.
\<close>

definition envelope ::
  "lib \<Rightarrow> io \<Rightarrow> string \<Rightarrow> string \<Rightarrow> string \<Rightarrow> string \<Rightarrow> buffer \<Rightarrow> DeviceKeysWithLogin" where
  "envelope l i login' mp ak sk lk =
     \<lparr>dk_login = login', dk_accessKey = ak,
      secretKeyEncrypted = encryptAES i lk (Buffer_from_hex l sk),
      masterPasswordEncrypted = encryptAES i lk (Buffer_from_utf8 l mp),
      localKeyEncrypted = encryptAES i (derivate_of l mp login') lk\<rparr>"

text \<open>
  A sequence of calls of \<^verbatim>\<open>getSecrets\<close>, each with the answers of the outside during
  that call, the device keys and the password it is given.
\<close>

fun getSecrets_calls ::
  "lib \<Rightarrow> (io \<times> DeviceKeysWithLogin option \<times> string option) list \<Rightarrow> world \<Rightarrow> world" where
  "getSecrets_calls l [] w = w"
| "getSecrets_calls l ((i, dk, mp) # cs) w = getSecrets_calls l cs (snd (getSecrets l i dk mp w))"

text \<open>
  The rows that \<^verbatim>\<open>getNote\<close> decrypts: those of the login with action
  \<^verbatim>\<open>BACKUP_EDIT\<close> that the query returns, of which the type is \<^verbatim>\<open>SECURENOTE\<close>.
\<close>

definition secure_note_rows :: "Secrets \<Rightarrow> world \<Rightarrow> BackupEditTransaction list" where
  "secure_note_rows secrets w =
     filter (\<lambda>t. t_type t = ''SECURENOTE'')
       (filter (\<lambda>t. t_login t = login secrets \<and> action t = ''BACKUP_EDIT'') (transactions w))"

text \<open>The debug line \<^verbatim>\<open>getNote\<close> starts with.\<close>

definition retrieving :: "string option \<Rightarrow> event" where
  "retrieving titleFilter =
     Winston_debug (''Retrieving: '' @ (if falsy titleFilter then [] else the titleFilter))"

section \<open>A reference instance of the collaborators\<close>

text \<open>
  A small instance of the library and of the outside's answers, on which the theorems
  below are run: strings and buffers convert to each other unchanged, letters are
  lower-cased over ASCII, and the cipher prefixes the payload with the key (its length in
  unary, a zero, the key itself), so that decryption under another key fails.
\<close>

definition lower_char :: "char \<Rightarrow> char" where
  "lower_char c =
     (case map_of (zip ''ABCDEFGHIJKLMNOPQRSTUVWXYZ'' ''abcdefghijklmnopqrstuvwxyz'') c of
        None \<Rightarrow> c
      | Some d \<Rightarrow> d)"

definition ref_encryptAES :: "buffer \<Rightarrow> buffer \<Rightarrow> string" where
  "ref_encryptAES k content = replicate (length k) (CHR 0x01) @ CHR 0x00 # k @ content"

definition ref_decrypt :: "string \<Rightarrow> buffer \<Rightarrow> error + buffer" where
  "ref_decrypt blob k =
     (let n = length (takeWhile (\<lambda>c. c = CHR 0x01) blob);
          body = drop (Suc n) blob
      in if n < length blob \<and> n = length k \<and> take n body = k then Inr (drop n body)
         else Inl DecryptionFailed)"

definition ref_decryptTransaction ::
  "BackupEditTransaction \<Rightarrow> Secrets \<Rightarrow> error + SecureNoteTransactionContent" where
  "ref_decryptTransaction t secrets =
     (if payload t = ''wifi'' then
        Inr [\<lparr>key = ''Title'', cdata = ''My Wifi Password''\<rparr>, \<lparr>key = ''Content'', cdata = ''hunter2''\<rparr>]
      else if payload t = ''bank'' then
        Inr [\<lparr>key = ''Title'', cdata = ''Bank PIN''\<rparr>, \<lparr>key = ''Content'', cdata = ''1234''\<rparr>]
      else Inl DecryptionFailed)"

definition ref_lib :: lib where
  "ref_lib =
     \<lparr>decrypt = ref_decrypt,
      getDerivateUsingParametersFromEncryptedData = (\<lambda>mp p. mp @ salt (cipherData p)),
      sha512 = (\<lambda>s. s),
      decryptTransaction = ref_decryptTransaction,
      Buffer_from_utf8 = (\<lambda>s. s),
      Buffer_from_hex = (\<lambda>s. s),
      Buffer_from_base64 = (\<lambda>s. s),
      toString_utf8 = (\<lambda>b. b),
      toString_hex = (\<lambda>b. b),
      toString_base64 = (\<lambda>b. b),
      toLowerCase = map lower_char\<rparr>"

definition ref_io :: io where
  "ref_io =
     \<lparr>inquirer_login = ''a@b.c'',
      inquirer_masterPassword = ''pw'',
      registerDevice = (\<lambda>login'. Inr (''ak'', ''5e'')),
      randomBytes = (\<lambda>n. Inr (Some (replicate n (CHR ''k'')))),
      encryptAES = ref_encryptAES,
      askSecureNoteChoice = (\<lambda>notes hasFilters. last notes)\<rparr>"

definition world0 :: world where
  "world0 = \<lparr>keychain = Map.empty, device = [], transactions = [], trace = []\<rparr>"


text \<open>A world in which the keychain holds a local key and the table its row.\<close>

definition cached_row :: DeviceKeysWithLogin where
  "cached_row = envelope ref_lib ref_io ''a@b.c'' ''pw'' ''ak'' ''5e'' ''kkkk''"

definition cached_world :: world where
  "cached_world =
     \<lparr>keychain = [(SERVICE, ''a@b.c'') \<mapsto> ''kkkk''], device = [cached_row],
      transactions = [], trace = []\<rparr>"

text \<open>The first run of a new login on the reference instance, and what it leaves.\<close>

definition first_run_world :: world where
  "first_run_world = snd (getSecrets ref_lib ref_io None (Some ''pw'') world0)"

definition first_run_secrets :: Secrets where
  "first_run_secrets =
     \<lparr>login = ''a@b.c'', masterPassword = ''pw'', accessKey = ''ak'', secretKey = ''5e''\<rparr>"

definition first_run_row :: DeviceKeysWithLogin where
  "first_run_row = envelope ref_lib ref_io ''a@b.c'' ''pw'' ''ak'' ''5e'' (replicate 32 (CHR ''k''))"

definition lost_key_world :: world where
  "lost_key_world = first_run_world\<lparr>keychain := Map.empty\<rparr>"

text \<open>Notes, and the rows of the transaction table that decrypt to them.\<close>

definition wifi_note :: VaultNote where
  "wifi_note = [(''title'', ''My Wifi Password''), (''content'', ''hunter2'')]"

definition bank_note :: VaultNote where
  "bank_note = [(''title'', ''Bank PIN''), (''content'', ''1234'')]"

definition note_row :: "string \<Rightarrow> string \<Rightarrow> BackupEditTransaction" where
  "note_row type' payload' =
     \<lparr>t_login = ''a@b.c'', action = ''BACKUP_EDIT'', t_type = type', payload = payload'\<rparr>"

definition notes_world :: world where
  "notes_world =
     world0\<lparr>transactions :=
       [note_row ''SECURENOTE'' ''wifi'', note_row ''AUTHENTIFIANT'' ''site'',
        note_row ''SECURENOTE'' ''bank'']\<rparr>"

definition corrupt_world :: world where
  "corrupt_world =
     world0\<lparr>transactions :=
       [note_row ''SECURENOTE'' ''wifi'', note_row ''SECURENOTE'' ''garbage'',
        note_row ''SECURENOTE'' ''bank'']\<rparr>"

section \<open>The runs of the session manager\<close>

lemmas run_defs = getSecretsWithoutDB_def masterPassword_or_prompt_def promptMasterPassword_def
  derive_def do_encryptAES_def do_decrypt_def setLocalKey_def keytar_setPassword_def log_def
  effective_password_def derivate_of_def envelope_def Let_def

lemma WithoutDB_register_fails:
  assumes "registerDevice i lg = Inl e"
  shows "fst (getSecretsWithoutDB l i lg mp lko w) = Inl e
       \<and> device (snd (getSecretsWithoutDB l i lg mp lko w)) = device w
       \<and> keychain (snd (getSecretsWithoutDB l i lg mp lko w)) = keychain w"
  using assms by (simp add: run_defs)

lemma WithoutDB_cached_key:
  assumes "registerDevice i lg = Inr (ak, sk)"
  shows "fst (getSecretsWithoutDB l i lg mp (Some lk) w) =
           Inr \<lparr>login = lg, masterPassword = effective_password i mp, accessKey = ak, secretKey = sk\<rparr>
       \<and> device (snd (getSecretsWithoutDB l i lg mp (Some lk) w)) =
           replace_into (device w) (envelope l i lg (effective_password i mp) ak sk lk)
       \<and> keychain (snd (getSecretsWithoutDB l i lg mp (Some lk) w)) = keychain w"
  using assms by (simp add: run_defs)

lemma WithoutDB_no_random:
  assumes "registerDevice i lg = Inr (ak, sk)" and "\<forall>k. randomBytes i 32 \<noteq> Inr (Some k)"
  shows "isl (fst (getSecretsWithoutDB l i lg mp None w))
       \<and> device (snd (getSecretsWithoutDB l i lg mp None w)) = device w
       \<and> keychain (snd (getSecretsWithoutDB l i lg mp None w)) = keychain w"
  using assms by (simp add: run_defs split: sum.splits option.splits)

lemma WithoutDB_fresh_key:
  assumes "registerDevice i lg = Inr (ak, sk)" and "randomBytes i 32 = Inr (Some rk)"
  shows "fst (getSecretsWithoutDB l i lg mp None w) =
           Inr \<lparr>login = lg, masterPassword = effective_password i mp, accessKey = ak, secretKey = sk\<rparr>
       \<and> device (snd (getSecretsWithoutDB l i lg mp None w)) =
           replace_into (device w) (envelope l i lg (effective_password i mp) ak sk rk)
       \<and> keychain (snd (getSecretsWithoutDB l i lg mp None w)) =
           (keychain w)((SERVICE, lg) \<mapsto> toString_base64 l rk)"
  using assms by (simp add: run_defs)

lemma WithoutDB_trace_register:
  "RegisterDevice lg \<in> set (trace (snd (getSecretsWithoutDB l i lg mp lko w)))"
  by (simp add: run_defs split: sum.splits option.splits)

lemma getLocalKey_simps:
  "device (snd (getLocalKey l lg w)) = device w"
  "keychain (snd (getLocalKey l lg w)) = keychain w"
  "transactions (snd (getLocalKey l lg w)) = transactions w"
  "trace (snd (getLocalKey l lg w)) = trace w @ [Keytar_getPassword SERVICE lg]"
  "fst (getLocalKey l lg w) =
     (if falsy (keychain w (SERVICE, lg)) then None
      else Some (Buffer_from_base64 l (the (keychain w (SERVICE, lg)))))"
  by (simp_all add: getLocalKey_def log_def Let_def)

lemma getSecrets_None:
  "getSecrets l i None mp w =
     getSecretsWithoutDB l i (inquirer_login i) mp
       (fst (getLocalKey l (inquirer_login i) (log Inquirer_login w)))
       (snd (getLocalKey l (inquirer_login i) (log Inquirer_login w)))"
  by (simp add: getSecrets_def split: prod.splits)

lemma getSecretsWithoutKeychain_frame:
  "device (snd (getSecretsWithoutKeychain l i lg d mp w)) = device w"
  by (simp add: getSecretsWithoutKeychain_def run_defs split: sum.splits)

lemma getSecrets_Some_device:
  "device (snd (getSecrets l i (Some d) mp w)) = device w"
  by (simp add: getSecrets_def getLocalKey_def getSecretsWithoutKeychain_frame do_decrypt_def log_def Let_def
      split: sum.splits option.splits prod.splits)

lemma getSecrets_device_cases:
  "device (snd (getSecrets l i dk mp w)) = device w
   \<or> (\<exists>ak sk lk. dk = None \<and> registerDevice i (inquirer_login i) = Inr (ak, sk) \<and>
         (if falsy (keychain w (SERVICE, inquirer_login i)) then randomBytes i 32 = Inr (Some lk)
          else lk = Buffer_from_base64 l (the (keychain w (SERVICE, inquirer_login i)))) \<and>
         device (snd (getSecrets l i dk mp w)) =
           replace_into (device w)
             (envelope l i (inquirer_login i) (effective_password i mp) ak sk lk))"
proof (cases dk)
  case (Some d)
  then show ?thesis by (simp add: getSecrets_Some_device)
next
  case None
  let ?lg = "inquirer_login i"
  let ?w = "snd (getLocalKey l ?lg (log Inquirer_login w))"
  have dev: "device ?w = device w" by (simp add: getLocalKey_simps log_def)
  have key: "fst (getLocalKey l ?lg (log Inquirer_login w)) =
      (if falsy (keychain w (SERVICE, ?lg)) then None
       else Some (Buffer_from_base64 l (the (keychain w (SERVICE, ?lg)))))"
    by (simp add: getLocalKey_simps log_def)
  show ?thesis
  proof (cases "registerDevice i ?lg")
    case (Inl e)
    with None dev show ?thesis
      using WithoutDB_register_fails [OF Inl] by (simp add: getSecrets_None)
  next
    case (Inr p)
    obtain ak sk where p: "p = (ak, sk)" by (cases p)
    have reg: "registerDevice i ?lg = Inr (ak, sk)" using Inr p by simp
    show ?thesis
    proof (cases "falsy (keychain w (SERVICE, ?lg))")
      case False
      with None dev reg key show ?thesis
        using WithoutDB_cached_key
          [OF reg, of l mp "Buffer_from_base64 l (the (keychain w (SERVICE, ?lg)))" ?w]
        by (auto simp add: getSecrets_None)
    next
      case True
      show ?thesis
      proof (cases "\<exists>rk. randomBytes i 32 = Inr (Some rk)")
        case noRandom: False
        then have "\<forall>k. randomBytes i 32 \<noteq> Inr (Some k)" by simp
        with None dev key True show ?thesis
          using WithoutDB_no_random [OF reg, of l mp ?w] by (simp add: getSecrets_None)
      next
        case random: True
        then obtain rk where rk: "randomBytes i 32 = Inr (Some rk)" by blast
        with None dev reg key True show ?thesis
          using WithoutDB_fresh_key [OF reg rk, of l mp ?w] by (auto simp add: getSecrets_None)
      qed
    qed
  qed
qed

lemma getSecrets_fast_path:
  assumes "keychain w (SERVICE, dk_login d) = Some e" and "e \<noteq> []"
      and "decrypt l (secretKeyEncrypted d) (Buffer_from_base64 l e) = Inr b"
      and "falsy mp \<Longrightarrow> decrypt l (masterPasswordEncrypted d) (Buffer_from_base64 l e) = Inr m"
  shows "fst (getSecrets l i (Some d) mp w) =
           Inr \<lparr>login = dk_login d,
                masterPassword = (if falsy mp then toString_utf8 l m else the mp),
                accessKey = dk_accessKey d, secretKey = toString_hex l b\<rparr>"
    and "trace (snd (getSecrets l i (Some d) mp w)) =
           trace w @ [Keytar_getPassword SERVICE (dk_login d)]
             @ (if falsy mp then [Decrypt (masterPasswordEncrypted d) (Buffer_from_base64 l e)] else [])
             @ [Decrypt (secretKeyEncrypted d) (Buffer_from_base64 l e)]"
  using assms
  by (simp_all add: getSecrets_def getLocalKey_def do_decrypt_def log_def)

lemma getSecrets_recovery:
  assumes "falsy (keychain w (SERVICE, dk_login d))"
      and "decrypt l (localKeyEncrypted d) (derivate_of l (effective_password i mp) (dk_login d)) = Inr lk"
      and "decrypt l (secretKeyEncrypted d) lk = Inr b"
  shows "fst (getSecrets l i (Some d) mp w) =
           Inr \<lparr>login = dk_login d, masterPassword = effective_password i mp,
                accessKey = dk_accessKey d, secretKey = toString_hex l b\<rparr>"
    and "keychain (snd (getSecrets l i (Some d) mp w)) =
           (keychain w)((SERVICE, dk_login d) \<mapsto> toString_base64 l lk)"
    and "trace (snd (getSecrets l i (Some d) mp w)) =
           trace w @ [Keytar_getPassword SERVICE (dk_login d)]
             @ (if falsy mp then [Inquirer_masterPassword] else [])
             @ [GetDerivate (effective_password i mp) (getDerivationParametersForLocalKey l (dk_login d)),
                Decrypt (localKeyEncrypted d) (derivate_of l (effective_password i mp) (dk_login d)),
                Decrypt (secretKeyEncrypted d) lk,
                Keytar_setPassword SERVICE (dk_login d) (toString_base64 l lk)]"
  using assms
  by (cases "falsy mp"; simp add: getSecrets_def getLocalKey_def getSecretsWithoutKeychain_def run_defs)+

text \<open>What a successful first run leaves behind.\<close>

lemma first_run_cases:
  assumes reg: "registerDevice i (inquirer_login i) = Inr (ak, sk)"
      and rnd: "falsy (keychain w (SERVICE, inquirer_login i)) \<Longrightarrow> randomBytes i 32 = Inr (Some rk)"
      and lk: "lk = (if falsy (keychain w (SERVICE, inquirer_login i)) then rk
                     else Buffer_from_base64 l (the (keychain w (SERVICE, inquirer_login i))))"
  shows "fst (getSecrets l i None mp w) =
           Inr \<lparr>login = inquirer_login i, masterPassword = effective_password i mp,
                accessKey = ak, secretKey = sk\<rparr>"
    and "device (snd (getSecrets l i None mp w)) =
           replace_into (device w) (envelope l i (inquirer_login i) (effective_password i mp) ak sk lk)"
    and "keychain (snd (getSecrets l i None mp w)) =
           (if falsy (keychain w (SERVICE, inquirer_login i))
            then (keychain w)((SERVICE, inquirer_login i) \<mapsto> toString_base64 l rk)
            else keychain w)"
    and "RegisterDevice (inquirer_login i) \<in> set (trace (snd (getSecrets l i None mp w)))"
proof -
  let ?lg = "inquirer_login i"
  let ?w = "snd (getLocalKey l ?lg (log Inquirer_login w))"
  let ?R = "getSecrets l i None mp w"
  have kc: "keychain ?w = keychain w" and dev: "device ?w = device w"
    by (simp_all add: getLocalKey_simps log_def)
  have key: "fst (getLocalKey l ?lg (log Inquirer_login w)) =
      (if falsy (keychain w (SERVICE, ?lg)) then None
       else Some (Buffer_from_base64 l (the (keychain w (SERVICE, ?lg)))))"
    by (simp add: getLocalKey_simps log_def)
  show "RegisterDevice ?lg \<in> set (trace (snd ?R))"
    by (simp add: getSecrets_None WithoutDB_trace_register)
  have "fst ?R = Inr \<lparr>login = ?lg, masterPassword = effective_password i mp,
                accessKey = ak, secretKey = sk\<rparr>
      \<and> device (snd ?R) = replace_into (device w) (envelope l i ?lg (effective_password i mp) ak sk lk)
      \<and> keychain (snd ?R) = (if falsy (keychain w (SERVICE, ?lg))
            then (keychain w)((SERVICE, ?lg) \<mapsto> toString_base64 l rk) else keychain w)"
  proof (cases "falsy (keychain w (SERVICE, ?lg))")
    case False
    then show ?thesis
      using key kc dev lk
        WithoutDB_cached_key [OF reg, of l mp "Buffer_from_base64 l (the (keychain w (SERVICE, ?lg)))" ?w]
      by (simp add: getSecrets_None)
  next
    case True
    then show ?thesis
      using key kc dev lk WithoutDB_fresh_key [OF reg rnd [OF True], of l mp ?w]
      by (simp add: getSecrets_None)
  qed
  then show "fst ?R = Inr \<lparr>login = ?lg, masterPassword = effective_password i mp,
                accessKey = ak, secretKey = sk\<rparr>"
    and "device (snd ?R) = replace_into (device w) (envelope l i ?lg (effective_password i mp) ak sk lk)"
    and "keychain (snd ?R) = (if falsy (keychain w (SERVICE, ?lg))
            then (keychain w)((SERVICE, ?lg) \<mapsto> toString_base64 l rk) else keychain w)"
    by simp_all
qed

lemma first_run_success:
  assumes "fst (getSecrets l i None mp w) = Inr s"
  shows "\<exists>ak sk lk.
           registerDevice i (inquirer_login i) = Inr (ak, sk)
         \<and> s = \<lparr>login = inquirer_login i, masterPassword = effective_password i mp,
                 accessKey = ak, secretKey = sk\<rparr>
         \<and> device (snd (getSecrets l i None mp w)) =
             replace_into (device w) (envelope l i (inquirer_login i) (effective_password i mp) ak sk lk)
         \<and> (if falsy (keychain w (SERVICE, inquirer_login i))
             then keychain (snd (getSecrets l i None mp w)) =
                    (keychain w)((SERVICE, inquirer_login i) \<mapsto> toString_base64 l lk)
             else lk = Buffer_from_base64 l (the (keychain w (SERVICE, inquirer_login i)))
                \<and> keychain (snd (getSecrets l i None mp w)) = keychain w)"
proof -
  let ?lg = "inquirer_login i"
  let ?w = "snd (getLocalKey l ?lg (log Inquirer_login w))"
  show ?thesis
  proof (cases "registerDevice i ?lg")
    case (Inl e)
    then show ?thesis
      using assms WithoutDB_register_fails [OF Inl, of l mp _ ?w] by (simp add: getSecrets_None)
  next
    case (Inr p)
    obtain ak sk where reg: "registerDevice i ?lg = Inr (ak, sk)" using Inr by (cases p) simp
    show ?thesis
    proof (cases "falsy (keychain w (SERVICE, ?lg)) \<and> (\<forall>k. randomBytes i 32 \<noteq> Inr (Some k))")
      case True
      then show ?thesis
        using assms WithoutDB_no_random [OF reg, of l mp ?w]
        by (auto simp add: getSecrets_None getLocalKey_simps log_def)
    next
      case False
      then obtain rk where rnd:
        "falsy (keychain w (SERVICE, ?lg)) \<Longrightarrow> randomBytes i 32 = Inr (Some rk)"
        by auto
      define lk where "lk = (if falsy (keychain w (SERVICE, ?lg)) then rk
                     else Buffer_from_base64 l (the (keychain w (SERVICE, ?lg))))"
      note fr = first_run_cases [OF reg rnd lk_def, where mp = mp]
      have "s = \<lparr>login = ?lg, masterPassword = effective_password i mp,
                 accessKey = ak, secretKey = sk\<rparr>"
        using assms fr(1) by simp
      then show ?thesis
        using reg fr(2) fr(3) by (auto simp add: lk_def)
    qed
  qed
qed

lemma replace_into_member:
  assumes "r \<in> set (replace_into rows x)" and "dk_login r = dk_login x"
  shows "r = x"
  using assms by (auto simp add: replace_into_def)

section \<open>The device table\<close>

lemma replace_into_distinct:
  assumes "distinct (map dk_login rows)"
  shows "distinct (map dk_login (replace_into rows r))"
  using assms by (auto simp add: replace_into_def distinct_map_filter)

lemma replace_into_row:
  "filter (\<lambda>x. dk_login x = dk_login r) (replace_into rows r) = [r]"
  by (induction rows) (auto simp add: replace_into_def)

lemma replace_into_fresh:
  assumes "dk_login r \<notin> dk_login ` set rows"
  shows "replace_into rows r = rows @ [r]"
  using assms by (induction rows) (auto simp add: replace_into_def)

lemma getSecrets_distinct:
  assumes "distinct (map dk_login (device w))"
  shows "distinct (map dk_login (device (snd (getSecrets l i dk mp w))))"
  using getSecrets_device_cases [of l i dk mp w] assms
  by (auto simp add: replace_into_distinct)

lemma getSecrets_calls_distinct:
  assumes "distinct (map dk_login (device w))"
  shows "distinct (map dk_login (device (getSecrets_calls l cs w)))"
  using assms
proof (induction cs arbitrary: w)
  case Nil
  then show ?case by simp
next
  case (Cons c cs)
  obtain i dk mp where c: "c = (i, dk, mp)" by (cases c)
  show ?case using Cons.IH [OF getSecrets_distinct [OF Cons.prems] ] c by simp
qed

lemma distinct_at_most_one:
  assumes "distinct (map f xs)"
  shows "length (filter (\<lambda>r. f r = x) xs) \<le> 1"
  using assms
proof (induction xs)
  case Nil
  then show ?case by simp
next
  case (Cons a xs)
  have "filter (\<lambda>r. f r = x) xs = []" if "f a = x"
  proof -
    from Cons.prems have "f a \<notin> f ` set xs" by simp
    then have "\<forall>r\<in>set xs. f r \<noteq> x" using that by (metis imageI)
    then show ?thesis by (simp add: filter_empty_conv)
  qed
  with Cons show ?case by auto
qed

lemma replace_into_others:
  "filter (\<lambda>x. dk_login x \<noteq> dk_login r) (replace_into rows r) =
     filter (\<lambda>x. dk_login x \<noteq> dk_login r) rows"
  by (simp add: replace_into_def)

text \<open>
  Claim C9. Start from a device table with at most one row per login and run any
  sequence of calls of \<^verbatim>\<open>getSecrets\<close>: the table has at most one row for every login
  afterwards. Run the first-run setup on that table, with a registration that answers and
  a random source that yields a key, whether or not the login has a row already: the call
  succeeds, the rows of the login are then exactly the new row (the login, the access key
  and the three ciphertexts of this call), the rows of the other logins are as they were,
  and there is still at most one row for every login. The write is a replacement of the
  whole row by login, not an addition.
\<close>

theorem at_most_one_device_record_per_login:
  assumes unique: "distinct (map dk_login (device w))"
      and registered: "registerDevice i (inquirer_login i) = Inr (ak, sk)"
      and random: "randomBytes i 32 = Inr (Some rk)"
      and local_key:
        "lk = (if falsy (keychain (getSecrets_calls l cs w) (SERVICE, inquirer_login i)) then rk
               else Buffer_from_base64 l
                 (the (keychain (getSecrets_calls l cs w) (SERVICE, inquirer_login i))))"
  shows "length (filter (\<lambda>r. dk_login r = x) (device (getSecrets_calls l cs w))) \<le> 1
       \<and> fst (getSecrets l i None mp (getSecrets_calls l cs w)) =
           Inr \<lparr>login = inquirer_login i, masterPassword = effective_password i mp,
                accessKey = ak, secretKey = sk\<rparr>
       \<and> filter (\<lambda>r. dk_login r = inquirer_login i)
             (device (snd (getSecrets l i None mp (getSecrets_calls l cs w)))) =
           [envelope l i (inquirer_login i) (effective_password i mp) ak sk lk]
       \<and> filter (\<lambda>r. dk_login r \<noteq> inquirer_login i)
             (device (snd (getSecrets l i None mp (getSecrets_calls l cs w)))) =
           filter (\<lambda>r. dk_login r \<noteq> inquirer_login i) (device (getSecrets_calls l cs w))
       \<and> length (filter (\<lambda>r. dk_login r = x)
             (device (snd (getSecrets l i None mp (getSecrets_calls l cs w))))) \<le> 1"
proof -
  let ?w = "getSecrets_calls l cs w"
  let ?row = "envelope l i (inquirer_login i) (effective_password i mp) ak sk lk"
  have inv: "distinct (map dk_login (device ?w))"
    by (rule getSecrets_calls_distinct [OF unique])
  note fr = first_run_cases [OF registered random local_key, where mp = mp]
  have lg: "dk_login ?row = inquirer_login i" by (simp add: envelope_def)
  have own: "filter (\<lambda>r. dk_login r = inquirer_login i)
      (device (snd (getSecrets l i None mp ?w))) = [?row]"
    using fr(2) replace_into_row [of ?row "device ?w"] lg by simp
  have others: "filter (\<lambda>r. dk_login r \<noteq> inquirer_login i)
      (device (snd (getSecrets l i None mp ?w))) =
      filter (\<lambda>r. dk_login r \<noteq> inquirer_login i) (device ?w)"
    using fr(2) replace_into_others [of ?row "device ?w"] lg by simp
  have after: "distinct (map dk_login (device (snd (getSecrets l i None mp ?w))))"
    by (rule getSecrets_distinct [OF inv])
  show ?thesis
    using distinct_at_most_one [OF inv, of x] fr(1) own others distinct_at_most_one [OF after, of x]
    by simp
qed

text \<open>
  On the reference instance: the table holds a row of the login, written with the password
  \<open>pw\<close>; a first-run setup with the password \<open>pw2\<close> leaves one row, the new one.
\<close>

theorem at_most_one_device_record_per_login_witness:
  "distinct (map dk_login (device cached_world))
   \<and> registerDevice ref_io (inquirer_login ref_io) = Inr (''ak'', ''5e'')
   \<and> randomBytes ref_io 32 = Inr (Some (replicate 32 (CHR ''k'')))
   \<and> device cached_world = [envelope ref_lib ref_io ''a@b.c'' ''pw'' ''ak'' ''5e'' ''kkkk'']
   \<and> device (snd (getSecrets ref_lib ref_io None (Some ''pw2'') cached_world)) =
       [envelope ref_lib ref_io ''a@b.c'' ''pw2'' ''ak'' ''5e'' ''kkkk'']"
proof -
  have u: "distinct (map dk_login (device cached_world))"
    by (simp add: cached_world_def)
  have reg: "registerDevice ref_io (inquirer_login ref_io) = Inr (''ak'', ''5e'')"
    by (simp add: ref_io_def)
  have rnd: "randomBytes ref_io 32 = Inr (Some (replicate 32 (CHR ''k'')))"
    by (simp add: ref_io_def)
  have lg: "inquirer_login ref_io = ''a@b.c''" by (simp add: ref_io_def)
  have lk: "''kkkk'' =
      (if falsy (keychain (getSecrets_calls ref_lib [] cached_world) (SERVICE, inquirer_login ref_io))
       then replicate 32 (CHR ''k'')
       else Buffer_from_base64 ref_lib
         (the (keychain (getSecrets_calls ref_lib [] cached_world) (SERVICE, inquirer_login ref_io))))"
    by (simp add: cached_world_def lg ref_lib_def)
  have pw: "effective_password ref_io (Some ''pw2'') = ''pw2''"
    by (simp add: effective_password_def)
  have d0: "device cached_world = [envelope ref_lib ref_io ''a@b.c'' ''pw'' ''ak'' ''5e'' ''kkkk'']"
    by (simp add: cached_world_def cached_row_def)
  note inst = at_most_one_device_record_per_login
    [OF u reg rnd lk, where mp = "Some ''pw2''" and x = "''a@b.c''"]
  have own: "filter (\<lambda>r. dk_login r = ''a@b.c'')
      (device (snd (getSecrets ref_lib ref_io None (Some ''pw2'') cached_world))) =
      [envelope ref_lib ref_io ''a@b.c'' ''pw2'' ''ak'' ''5e'' ''kkkk'']"
    using inst lg pw by simp
  have others: "filter (\<lambda>r. dk_login r \<noteq> ''a@b.c'')
      (device (snd (getSecrets ref_lib ref_io None (Some ''pw2'') cached_world))) = []"
    using inst lg d0 by (simp add: envelope_def)
  from others have "\<forall>r\<in>set (device (snd (getSecrets ref_lib ref_io None (Some ''pw2'') cached_world))).
      dk_login r = ''a@b.c''"
    by (simp add: filter_empty_conv)
  then have "filter (\<lambda>r. dk_login r = ''a@b.c'')
      (device (snd (getSecrets ref_lib ref_io None (Some ''pw2'') cached_world))) =
      device (snd (getSecrets ref_lib ref_io None (Some ''pw2'') cached_world))"
    by (rule filter_True)
  with own have "device (snd (getSecrets ref_lib ref_io None (Some ''pw2'') cached_world)) =
      [envelope ref_lib ref_io ''a@b.c'' ''pw2'' ''ak'' ''5e'' ''kkkk'']"
    by simp
  then show ?thesis using u reg rnd d0 by simp
qed

text \<open>
  Claim C3. A call of \<^verbatim>\<open>getSecrets\<close> leaves the device table as it was or replaces one
  row in it, and the row it writes holds, beside the login and the access key, only
  outputs of \<^verbatim>\<open>encryptAES\<close>: the secret key of the registration and the master
  password encrypted under the local key, and the local key encrypted under the Derivate
  of the master password. The local key is the one of the keychain, or the fresh random
  one where the keychain has none; it is in no column itself.
\<close>

theorem device_store_holds_ciphertexts_only:
  "device (snd (getSecrets l i dk mp w)) = device w
   \<or> (\<exists>ak sk lk.
         registerDevice i (inquirer_login i) = Inr (ak, sk)
       \<and> (if falsy (keychain w (SERVICE, inquirer_login i)) then randomBytes i 32 = Inr (Some lk)
          else lk = Buffer_from_base64 l (the (keychain w (SERVICE, inquirer_login i))))
       \<and> device (snd (getSecrets l i dk mp w)) =
           replace_into (device w)
             \<lparr>dk_login = inquirer_login i, dk_accessKey = ak,
              secretKeyEncrypted = encryptAES i lk (Buffer_from_hex l sk),
              masterPasswordEncrypted =
                encryptAES i lk (Buffer_from_utf8 l (effective_password i mp)),
              localKeyEncrypted =
                encryptAES i (derivate_of l (effective_password i mp) (inquirer_login i)) lk\<rparr>)"
  using getSecrets_device_cases [of l i dk mp w]
  unfolding envelope_def by blast



text \<open>
  The guard of the source sees a buffer and not its length: a buffer that is returned is
  stored, whatever its length.
\<close>

lemma setLocalKey_stores_returned_buffer:
  assumes "randomBytes i 32 = Inr (Some k)"
  shows "fst (setLocalKey l i login' None w) = Inr k
       \<and> keychain (snd (setLocalKey l i login' None w)) =
           (keychain w)((SERVICE, login') \<mapsto> toString_base64 l k)"
  using assms by (simp add: setLocalKey_def keytar_setPassword_def log_def)

text \<open>
  Claim C10. On the fast path (the device keys are given and the keychain holds a
  non-empty entry for the login) \<^verbatim>\<open>getSecrets\<close> writes nothing: keychain, device table
  and transactions are unchanged. Its calls to the outside are the read of the keychain,
  then the decryption of \<^verbatim>\<open>masterPasswordEncrypted\<close> when no password was handed in, then
  the decryption of \<^verbatim>\<open>secretKeyEncrypted\<close>, each with the cached local key; there is no
  derivation, no registration and no prompt.
\<close>

theorem fast_path_writes_nothing:
  assumes "keychain w (SERVICE, dk_login dk) = Some e" and "e \<noteq> []"
  shows "keychain (snd (getSecrets l i (Some dk) mp w)) = keychain w
       \<and> device (snd (getSecrets l i (Some dk) mp w)) = device w
       \<and> transactions (snd (getSecrets l i (Some dk) mp w)) = transactions w
       \<and> trace (snd (getSecrets l i (Some dk) mp w)) =
           trace w @ [Keytar_getPassword SERVICE (dk_login dk)]
             @ (if falsy mp then [Decrypt (masterPasswordEncrypted dk) (Buffer_from_base64 l e)] else [])
             @ (if falsy mp \<and> isl (decrypt l (masterPasswordEncrypted dk) (Buffer_from_base64 l e)) then []
                else [Decrypt (secretKeyEncrypted dk) (Buffer_from_base64 l e)])"
  using assms
  by (simp add: getSecrets_def getLocalKey_def do_decrypt_def log_def split: sum.splits)

theorem fast_path_writes_nothing_witness:
  "keychain cached_world (SERVICE, dk_login cached_row) = Some ''kkkk'' \<and> ''kkkk'' \<noteq> []
   \<and> keychain (snd (getSecrets ref_lib ref_io (Some cached_row) None cached_world)) = keychain cached_world
   \<and> device (snd (getSecrets ref_lib ref_io (Some cached_row) None cached_world)) = device cached_world
   \<and> trace (snd (getSecrets ref_lib ref_io (Some cached_row) None cached_world)) =
       [Keytar_getPassword SERVICE ''a@b.c'',
        Decrypt (masterPasswordEncrypted cached_row) ''kkkk'',
        Decrypt (secretKeyEncrypted cached_row) ''kkkk'']"
proof -
  have h1: "keychain cached_world (SERVICE, dk_login cached_row) = Some ''kkkk''"
    by (simp add: cached_world_def cached_row_def envelope_def)
  have h2: "''kkkk'' \<noteq> []" by simp
  have d: "decrypt ref_lib (masterPasswordEncrypted cached_row) ''kkkk'' = Inr ''pw''"
    by (simp add: cached_row_def envelope_def ref_lib_def ref_io_def ref_decrypt_def ref_encryptAES_def)
  have n: "dk_login cached_row = ''a@b.c''" "trace cached_world = []"
    by (simp_all add: cached_row_def envelope_def cached_world_def)
  show ?thesis
    using h1 h2 d n fast_path_writes_nothing [OF h1 h2, of ref_lib ref_io None]
    by (simp add: ref_lib_def)
qed

section \<open>The reference instance keeps the contracts\<close>

lemma takeWhile_unary:
  "takeWhile (\<lambda>c. c = CHR 0x01) (replicate n (CHR 0x01) @ CHR 0x00 # ys) = replicate n (CHR 0x01)"
  by (induction n) simp_all

lemma ref_roundtrip: "ref_decrypt (ref_encryptAES k x) k = Inr x"
  unfolding ref_decrypt_def ref_encryptAES_def takeWhile_unary
  by simp

lemma ref_cipher: "\<forall>k x. decrypt ref_lib (encryptAES ref_io k x) k = Inr x"
  by (simp add: ref_lib_def ref_io_def ref_roundtrip)

lemma ref_base64:
  "\<forall>b. Buffer_from_base64 ref_lib (toString_base64 ref_lib b) = b"
  "\<forall>b. b \<noteq> [] \<longrightarrow> toString_base64 ref_lib b \<noteq> []"
  by (simp_all add: ref_lib_def)

lemma ref_first_run:
  "getSecrets ref_lib ref_io None (Some ''pw'') world0 = (Inr first_run_secrets, first_run_world)"
  "device first_run_world = [first_run_row]"
  "keychain first_run_world (SERVICE, ''a@b.c'') = Some (replicate 32 (CHR ''k''))"
proof -
  have reg: "registerDevice ref_io (inquirer_login ref_io) = Inr (''ak'', ''5e'')"
    by (simp add: ref_io_def)
  have rnd: "randomBytes ref_io 32 = Inr (Some (replicate 32 (CHR ''k'')))"
    by (simp add: ref_io_def)
  have lk: "replicate 32 (CHR ''k'') =
      (if falsy (keychain world0 (SERVICE, inquirer_login ref_io)) then replicate 32 (CHR ''k'')
       else Buffer_from_base64 ref_lib (the (keychain world0 (SERVICE, inquirer_login ref_io))))"
    by (simp add: world0_def)
  note fr = first_run_cases [OF reg rnd lk, where mp = "Some ''pw''"]
  have lg: "inquirer_login ref_io = ''a@b.c''" by (simp add: ref_io_def)
  have pw: "effective_password ref_io (Some ''pw'') = ''pw''" by (simp add: effective_password_def)
  show "getSecrets ref_lib ref_io None (Some ''pw'') world0 = (Inr first_run_secrets, first_run_world)"
    using fr(1) lg pw by (simp add: first_run_secrets_def first_run_world_def prod_eq_iff)
  show "device first_run_world = [first_run_row]"
    using fr(2) lg pw by (simp add: first_run_world_def first_run_row_def replace_into_def world0_def)
  show "keychain first_run_world (SERVICE, ''a@b.c'') = Some (replicate 32 (CHR ''k''))"
    using fr(3) lg by (simp add: first_run_world_def world0_def ref_lib_def)
qed

section \<open>First run, recovery and fast path\<close>

text \<open>
  Claim C1. Take a login with no row in the device table, a registration that answers
  with the keys \<open>ak\<close> and \<open>sk\<close>, a cipher whose decryption undoes its encryption, and a
  random source that yields thirty-two bytes. Then the first run of \<^verbatim>\<open>getSecrets\<close> with a
  master password registers the device, returns \<open>ak\<close> and \<open>sk\<close> and adds exactly one
  row for the login; and a later call with that row and no master password returns the
  same access key and secret key. (The secret key is a hex string: it survives the
  conversion to bytes and back. Base64 likewise decodes what it encoded.)
\<close>

theorem first_run_then_fast_path:
  assumes roundtrip: "\<forall>k x. decrypt l (encryptAES i k x) k = Inr x"
      and base64: "\<forall>b. Buffer_from_base64 l (toString_base64 l b) = b"
      and base64_nonempty: "\<forall>b. b \<noteq> [] \<longrightarrow> toString_base64 l b \<noteq> []"
      and registered: "registerDevice i (inquirer_login i) = Inr (ak, sk)"
      and hex: "toString_hex l (Buffer_from_hex l sk) = sk"
      and random: "randomBytes i 32 = Inr (Some rk)" "length rk = 32"
      and fresh: "inquirer_login i \<notin> dk_login ` set (device w0)"
  shows "\<exists>s1 w1 r s2 w2.
           getSecrets l i None (Some P) w0 = (Inr s1, w1)
         \<and> RegisterDevice (inquirer_login i) \<in> set (trace w1)
         \<and> accessKey s1 = ak \<and> secretKey s1 = sk
         \<and> device w1 = device w0 @ [r]
         \<and> filter (\<lambda>x. dk_login x = inquirer_login i) (device w1) = [r]
         \<and> getSecrets l j (Some r) None w1 = (Inr s2, w2)
         \<and> accessKey s2 = accessKey s1 \<and> secretKey s2 = secretKey s1"
proof -
  let ?lg = "inquirer_login i"
  let ?mp = "effective_password i (Some P)"
  let ?R1 = "getSecrets l i None (Some P) w0"
  define lk where "lk = (if falsy (keychain w0 (SERVICE, ?lg)) then rk
                     else Buffer_from_base64 l (the (keychain w0 (SERVICE, ?lg))))"
  define r where "r = envelope l i ?lg ?mp ak sk lk"
  define s1 where "s1 = \<lparr>login = ?lg, masterPassword = ?mp, accessKey = ak, secretKey = sk\<rparr>"
  let ?w1 = "snd ?R1"
  note fr = first_run_cases [OF registered random(1) lk_def, where mp = "Some P"]
  have r1: "?R1 = (Inr s1, ?w1)"
    using fr(1) by (simp add: s1_def prod_eq_iff)
  have rlg: "dk_login r = ?lg" by (simp add: r_def envelope_def)
  have dev: "device ?w1 = replace_into (device w0) r"
    using fr(2) by (simp add: r_def)
  have dev1: "device ?w1 = device w0 @ [r]"
    using dev replace_into_fresh [of r "device w0"] fresh rlg by simp
  have dev2: "filter (\<lambda>x. dk_login x = ?lg) (device ?w1) = [r]"
    using dev replace_into_row [of r "device w0"] rlg by simp
  obtain e where e: "keychain ?w1 (SERVICE, dk_login r) = Some e" "e \<noteq> []"
      "Buffer_from_base64 l e = lk"
  proof (cases "falsy (keychain w0 (SERVICE, ?lg))")
    case True
    have "rk \<noteq> []" using random(2) by auto
    then have "toString_base64 l rk \<noteq> []" using base64_nonempty by simp
    then show ?thesis
      using that [of "toString_base64 l rk"] True fr(3) base64 rlg by (simp add: lk_def)
  next
    case False
    then obtain e0 where "keychain w0 (SERVICE, ?lg) = Some e0" "e0 \<noteq> []"
      by (cases "keychain w0 (SERVICE, ?lg)") auto
    then show ?thesis
      using that [of e0] False fr(3) rlg by (simp add: lk_def)
  qed
  have d1: "decrypt l (secretKeyEncrypted r) (Buffer_from_base64 l e) = Inr (Buffer_from_hex l sk)"
    using roundtrip e(3) by (simp add: r_def envelope_def)
  have d2: "decrypt l (masterPasswordEncrypted r) (Buffer_from_base64 l e) = Inr (Buffer_from_utf8 l ?mp)"
    using roundtrip e(3) by (simp add: r_def envelope_def)
  let ?R2 = "getSecrets l j (Some r) None ?w1"
  define s2 where "s2 = \<lparr>login = dk_login r, masterPassword = toString_utf8 l (Buffer_from_utf8 l ?mp),
      accessKey = dk_accessKey r, secretKey = toString_hex l (Buffer_from_hex l sk)\<rparr>"
  have "fst ?R2 = Inr s2"
    using getSecrets_fast_path(1) [OF e(1) e(2) d1 d2, where mp = None and i = j] by (simp add: s2_def)
  then have r2: "?R2 = (Inr s2, snd ?R2)" by (simp add: prod_eq_iff)
  have keys: "accessKey s2 = accessKey s1" "secretKey s2 = secretKey s1"
    using hex by (simp_all add: s1_def s2_def r_def envelope_def)
  have "getSecrets l i None (Some P) w0 = (Inr s1, ?w1)
         \<and> RegisterDevice ?lg \<in> set (trace ?w1)
         \<and> accessKey s1 = ak \<and> secretKey s1 = sk
         \<and> device ?w1 = device w0 @ [r]
         \<and> filter (\<lambda>x. dk_login x = ?lg) (device ?w1) = [r]
         \<and> getSecrets l j (Some r) None ?w1 = (Inr s2, snd ?R2)
         \<and> accessKey s2 = accessKey s1 \<and> secretKey s2 = secretKey s1"
    using r1 fr(4) dev1 dev2 r2 keys by (simp add: s1_def)
  then show ?thesis by blast
qed


theorem first_run_then_fast_path_witness:
  "(\<forall>k x. decrypt ref_lib (encryptAES ref_io k x) k = Inr x)
   \<and> (\<forall>b. Buffer_from_base64 ref_lib (toString_base64 ref_lib b) = b)
   \<and> toString_base64 ref_lib (replicate 32 (CHR ''k'')) \<noteq> []
   \<and> registerDevice ref_io (inquirer_login ref_io) = Inr (''ak'', ''5e'')
   \<and> toString_hex ref_lib (Buffer_from_hex ref_lib ''5e'') = ''5e''
   \<and> randomBytes ref_io 32 = Inr (Some (replicate 32 (CHR ''k'')))
   \<and> length (replicate 32 (CHR ''k'')) = 32
   \<and> inquirer_login ref_io \<notin> dk_login ` set (device world0)
   \<and> (\<exists>s1 w1 r s2 w2.
           getSecrets ref_lib ref_io None (Some ''pw'') world0 = (Inr s1, w1)
         \<and> RegisterDevice (inquirer_login ref_io) \<in> set (trace w1)
         \<and> accessKey s1 = ''ak'' \<and> secretKey s1 = ''5e''
         \<and> device w1 = device world0 @ [r]
         \<and> filter (\<lambda>x. dk_login x = inquirer_login ref_io) (device w1) = [r]
         \<and> getSecrets ref_lib ref_io (Some r) None w1 = (Inr s2, w2)
         \<and> accessKey s2 = accessKey s1 \<and> secretKey s2 = secretKey s1)"
proof -
  have reg: "registerDevice ref_io (inquirer_login ref_io) = Inr (''ak'', ''5e'')"
    by (simp add: ref_io_def)
  have hex: "toString_hex ref_lib (Buffer_from_hex ref_lib ''5e'') = ''5e''"
    by (simp add: ref_lib_def)
  have rnd: "randomBytes ref_io 32 = Inr (Some (replicate 32 (CHR ''k'')))"
    by (simp add: ref_io_def)
  have len: "length (replicate 32 (CHR ''k'')) = 32" by simp
  have fresh: "inquirer_login ref_io \<notin> dk_login ` set (device world0)"
    by (simp add: world0_def)
  note inst = first_run_then_fast_path
    [OF ref_cipher ref_base64(1) ref_base64(2) reg hex rnd len fresh, where P = "''pw''" and j = ref_io]
  show ?thesis
    using ref_cipher ref_base64(1) reg hex rnd len fresh inst by (simp add: ref_lib_def)
qed

text \<open>
  Claim C2. After a successful first run with the master password \<open>P\<close>, which left the
  row \<open>r\<close> in the table and a local key in the keychain, take any world whose keychain
  has lost the entry of the login. There \<^verbatim>\<open>getSecrets\<close> with \<open>r\<close> and \<open>P\<close> computes the
  Derivate, decrypts \<^verbatim>\<open>localKeyEncrypted\<close> with it and \<^verbatim>\<open>secretKeyEncrypted\<close> with the
  local key so found, returns the secret key of the first run and stores the local key in
  the keychain again; and the next call, whatever password it is given, takes the fast
  path: it reads the keychain and decrypts, with no derivation and no prompt, and returns
  the same secret key.
\<close>

theorem recovery_restores_fast_path:
  assumes roundtrip: "\<forall>k x. decrypt l (encryptAES i k x) k = Inr x"
      and base64: "\<forall>b. Buffer_from_base64 l (toString_base64 l b) = b"
      and base64_nonempty: "\<forall>b. b \<noteq> [] \<longrightarrow> toString_base64 l b \<noteq> []"
      and first: "getSecrets l i None (Some P) w0 = (Inr s1, w1)"
      and P: "P \<noteq> []"
      and row: "r \<in> set (device w1)" "dk_login r = login s1"
      and cached: "keychain w1 (SERVICE, login s1) = Some e" "Buffer_from_base64 l e \<noteq> []"
      and hex: "toString_hex l (Buffer_from_hex l (secretKey s1)) = secretKey s1"
      and lost: "falsy (keychain w (SERVICE, login s1))"
  shows "\<exists>s2 w2 s3 w3.
           getSecrets l j (Some r) (Some P) w = (Inr s2, w2)
         \<and> accessKey s2 = accessKey s1 \<and> secretKey s2 = secretKey s1
         \<and> trace w2 = trace w @
             [Keytar_getPassword SERVICE (login s1),
              GetDerivate P (getDerivationParametersForLocalKey l (login s1)),
              Decrypt (localKeyEncrypted r) (derivate_of l P (login s1)),
              Decrypt (secretKeyEncrypted r) (Buffer_from_base64 l e),
              Keytar_setPassword SERVICE (login s1) (toString_base64 l (Buffer_from_base64 l e))]
         \<and> keychain w2 (SERVICE, login s1) = Some (toString_base64 l (Buffer_from_base64 l e))
         \<and> getSecrets l j' (Some r) mp' w2 = (Inr s3, w3)
         \<and> accessKey s3 = accessKey s1 \<and> secretKey s3 = secretKey s1
         \<and> trace w3 = trace w2 @ [Keytar_getPassword SERVICE (login s1)]
             @ (if falsy mp' then [Decrypt (masterPasswordEncrypted r) (Buffer_from_base64 l e)] else [])
             @ [Decrypt (secretKeyEncrypted r) (Buffer_from_base64 l e)]"
proof -
  let ?lg = "inquirer_login i"
  let ?lk = "Buffer_from_base64 l e"
  have f1: "fst (getSecrets l i None (Some P) w0) = Inr s1"
    and w1: "snd (getSecrets l i None (Some P) w0) = w1"
    using first by simp_all
  have pw: "effective_password i (Some P) = P" "effective_password j (Some P) = P"
    using P by (simp_all add: effective_password_def)
  from first_run_success [OF f1] obtain ak sk lk where
        s1: "s1 = \<lparr>login = ?lg, masterPassword = P, accessKey = ak, secretKey = sk\<rparr>"
    and dev: "device w1 = replace_into (device w0) (envelope l i ?lg P ak sk lk)"
    and kc: "if falsy (keychain w0 (SERVICE, ?lg))
             then keychain w1 = (keychain w0)((SERVICE, ?lg) \<mapsto> toString_base64 l lk)
             else lk = Buffer_from_base64 l (the (keychain w0 (SERVICE, ?lg)))
                \<and> keychain w1 = keychain w0"
    unfolding w1 pw by blast
  have lg: "login s1 = ?lg" and keys1: "accessKey s1 = ak" "secretKey s1 = sk"
    by (simp_all add: s1)
  have r: "r = envelope l i ?lg P ak sk lk"
    using row dev lg replace_into_member [of r "device w0" "envelope l i ?lg P ak sk lk"]
    by (simp add: envelope_def)
  have rlg: "dk_login r = login s1" by (rule row(2))
  have lk: "lk = ?lk"
  proof (cases "falsy (keychain w0 (SERVICE, ?lg))")
    case True
    then have "e = toString_base64 l lk" using kc cached(1) lg by simp
    then show ?thesis using base64 by simp
  next
    case False
    then show ?thesis using kc cached(1) lg by simp
  qed
  have stored: "toString_base64 l ?lk \<noteq> []" using cached(2) base64_nonempty by simp
  have d0: "decrypt l (localKeyEncrypted r) (derivate_of l (effective_password j (Some P)) (dk_login r)) = Inr ?lk"
    using roundtrip lk lg rlg pw by (simp add: r envelope_def)
  have d1: "decrypt l (secretKeyEncrypted r) ?lk = Inr (Buffer_from_hex l sk)"
    using roundtrip lk by (simp add: r envelope_def)
  have d2: "decrypt l (masterPasswordEncrypted r) ?lk = Inr (Buffer_from_utf8 l P)"
    using roundtrip lk by (simp add: r envelope_def)
  have lost': "falsy (keychain w (SERVICE, dk_login r))" using lost rlg by simp
  let ?R2 = "getSecrets l j (Some r) (Some P) w"
  note rec = getSecrets_recovery [OF lost' d0 d1]
  define s2 where "s2 = \<lparr>login = dk_login r, masterPassword = P,
      accessKey = dk_accessKey r, secretKey = toString_hex l (Buffer_from_hex l sk)\<rparr>"
  have r2: "?R2 = (Inr s2, snd ?R2)"
    using rec(1) pw by (simp add: s2_def prod_eq_iff)
  have k2: "keychain (snd ?R2) (SERVICE, dk_login r) = Some (toString_base64 l ?lk)"
    using rec(2) by simp
  have t2: "trace (snd ?R2) = trace w @
             [Keytar_getPassword SERVICE (login s1),
              GetDerivate P (getDerivationParametersForLocalKey l (login s1)),
              Decrypt (localKeyEncrypted r) (derivate_of l P (login s1)),
              Decrypt (secretKeyEncrypted r) ?lk,
              Keytar_setPassword SERVICE (login s1) (toString_base64 l ?lk)]"
    using rec(3) pw rlg P by simp
  have b: "Buffer_from_base64 l (toString_base64 l ?lk) = ?lk" using base64 by simp
  let ?R3 = "getSecrets l j' (Some r) mp' (snd ?R2)"
  define s3 where "s3 = \<lparr>login = dk_login r,
      masterPassword = (if falsy mp' then toString_utf8 l (Buffer_from_utf8 l P) else the mp'),
      accessKey = dk_accessKey r, secretKey = toString_hex l (Buffer_from_hex l sk)\<rparr>"
  have d1': "decrypt l (secretKeyEncrypted r) (Buffer_from_base64 l (toString_base64 l ?lk)) =
      Inr (Buffer_from_hex l sk)"
    and d2': "decrypt l (masterPasswordEncrypted r) (Buffer_from_base64 l (toString_base64 l ?lk)) =
      Inr (Buffer_from_utf8 l P)"
    using d1 d2 b by simp_all
  note fast = getSecrets_fast_path [OF k2 stored d1' d2', where mp = mp' and i = j']
  have r3: "?R3 = (Inr s3, snd ?R3)"
    using fast(1) by (simp add: s3_def prod_eq_iff)
  have t3: "trace (snd ?R3) = trace (snd ?R2) @ [Keytar_getPassword SERVICE (login s1)]
             @ (if falsy mp' then [Decrypt (masterPasswordEncrypted r) ?lk] else [])
             @ [Decrypt (secretKeyEncrypted r) ?lk]"
    using fast(2) rlg b by simp
  have keys: "accessKey s2 = accessKey s1" "secretKey s2 = secretKey s1"
      "accessKey s3 = accessKey s1" "secretKey s3 = secretKey s1"
    using hex keys1 by (simp_all add: s2_def s3_def r envelope_def)
  have "?R2 = (Inr s2, snd ?R2)
         \<and> accessKey s2 = accessKey s1 \<and> secretKey s2 = secretKey s1
         \<and> trace (snd ?R2) = trace w @
             [Keytar_getPassword SERVICE (login s1),
              GetDerivate P (getDerivationParametersForLocalKey l (login s1)),
              Decrypt (localKeyEncrypted r) (derivate_of l P (login s1)),
              Decrypt (secretKeyEncrypted r) ?lk,
              Keytar_setPassword SERVICE (login s1) (toString_base64 l ?lk)]
         \<and> keychain (snd ?R2) (SERVICE, login s1) = Some (toString_base64 l ?lk)
         \<and> ?R3 = (Inr s3, snd ?R3)
         \<and> accessKey s3 = accessKey s1 \<and> secretKey s3 = secretKey s1
         \<and> trace (snd ?R3) = trace (snd ?R2) @ [Keytar_getPassword SERVICE (login s1)]
             @ (if falsy mp' then [Decrypt (masterPasswordEncrypted r) ?lk] else [])
             @ [Decrypt (secretKeyEncrypted r) ?lk]"
    using r2 keys t2 k2 r3 t3 rlg by simp
  then show ?thesis by blast
qed


theorem recovery_restores_fast_path_witness:
  "(\<forall>k x. decrypt ref_lib (encryptAES ref_io k x) k = Inr x)
   \<and> (\<forall>b. Buffer_from_base64 ref_lib (toString_base64 ref_lib b) = b)
   \<and> toString_base64 ref_lib (replicate 32 (CHR ''k'')) \<noteq> []
   \<and> getSecrets ref_lib ref_io None (Some ''pw'') world0 = (Inr first_run_secrets, first_run_world)
   \<and> ''pw'' \<noteq> []
   \<and> first_run_row \<in> set (device first_run_world)
   \<and> dk_login first_run_row = login first_run_secrets
   \<and> keychain first_run_world (SERVICE, login first_run_secrets) = Some (replicate 32 (CHR ''k''))
   \<and> Buffer_from_base64 ref_lib (replicate 32 (CHR ''k'')) \<noteq> []
   \<and> toString_hex ref_lib (Buffer_from_hex ref_lib (secretKey first_run_secrets)) = secretKey first_run_secrets
   \<and> falsy (keychain lost_key_world (SERVICE, login first_run_secrets))
   \<and> (\<exists>s2 w2 s3 w3.
           getSecrets ref_lib ref_io (Some first_run_row) (Some ''pw'') lost_key_world = (Inr s2, w2)
         \<and> secretKey s2 = ''5e''
         \<and> keychain w2 (SERVICE, ''a@b.c'') = Some (replicate 32 (CHR ''k''))
         \<and> getSecrets ref_lib ref_io (Some first_run_row) None w2 = (Inr s3, w3)
         \<and> secretKey s3 = ''5e''
         \<and> trace w3 = trace w2 @
              [Keytar_getPassword SERVICE ''a@b.c'',
               Decrypt (masterPasswordEncrypted first_run_row) (replicate 32 (CHR ''k'')),
               Decrypt (secretKeyEncrypted first_run_row) (replicate 32 (CHR ''k''))])"
proof -
  have P: "''pw'' \<noteq> []" by simp
  have row: "first_run_row \<in> set (device first_run_world)"
    by (simp add: ref_first_run(2))
  have lg: "login first_run_secrets = ''a@b.c''" "secretKey first_run_secrets = ''5e''"
    by (simp_all add: first_run_secrets_def)
  have rlg: "dk_login first_run_row = login first_run_secrets"
    by (simp add: first_run_row_def envelope_def first_run_secrets_def)
  have cached: "keychain first_run_world (SERVICE, login first_run_secrets) = Some (replicate 32 (CHR ''k''))"
    using ref_first_run(3) lg by simp
  have b: "Buffer_from_base64 ref_lib (replicate 32 (CHR ''k'')) = replicate 32 (CHR ''k'')"
    "toString_base64 ref_lib (replicate 32 (CHR ''k'')) = replicate 32 (CHR ''k'')"
    by (simp_all add: ref_lib_def)
  have ne: "Buffer_from_base64 ref_lib (replicate 32 (CHR ''k'')) \<noteq> []"
    unfolding b by simp
  have hex: "toString_hex ref_lib (Buffer_from_hex ref_lib (secretKey first_run_secrets)) =
      secretKey first_run_secrets"
    by (simp add: ref_lib_def)
  have lost: "falsy (keychain lost_key_world (SERVICE, login first_run_secrets))"
    by (simp add: lost_key_world_def)
  from recovery_restores_fast_path
    [OF ref_cipher ref_base64(1) ref_base64(2) ref_first_run(1) P row rlg cached ne hex lost,
     where j = ref_io and j' = ref_io and mp' = None]
  obtain s2 w2 s3 w3 where
      "getSecrets ref_lib ref_io (Some first_run_row) (Some ''pw'') lost_key_world = (Inr s2, w2)"
      "secretKey s2 = ''5e''"
      "keychain w2 (SERVICE, ''a@b.c'') = Some (replicate 32 (CHR ''k''))"
      "getSecrets ref_lib ref_io (Some first_run_row) None w2 = (Inr s3, w3)"
      "secretKey s3 = ''5e''"
      "trace w3 = trace w2 @
              [Keytar_getPassword SERVICE ''a@b.c'',
               Decrypt (masterPasswordEncrypted first_run_row) (replicate 32 (CHR ''k'')),
               Decrypt (secretKeyEncrypted first_run_row) (replicate 32 (CHR ''k''))]"
    unfolding lg b by auto
  then show ?thesis
    using ref_cipher ref_base64(1) ref_first_run(1) P row rlg cached ne hex lost b(2) by simp
qed

section \<open>The note retriever\<close>

lemma try_map_error_from:
  assumes "try_map f xs = Inl e"
  shows "\<exists>x\<in>set xs. f x = Inl e"
  using assms by (induction xs) (auto split: sum.splits)

lemma try_map_fails:
  assumes "x \<in> set xs" and "f x = Inl e"
  shows "\<exists>e'. try_map f xs = Inl e'"
  using assms by (induction xs) (auto split: sum.splits)

lemma try_map_succeeds:
  assumes "\<And>x. x \<in> set xs \<Longrightarrow> f x = Inr (g x)"
  shows "try_map f xs = Inr (map g xs)"
  using assms by (induction xs) simp_all



lemma fold_update_lookup:
  "map_of (fold (\<lambda>(k, v) note. AList.update k v note) es acc) = map_of acc ++ map_of (rev es)"
proof (induction es arbitrary: acc)
  case Nil
  then show ?case by simp
next
  case (Cons x es)
  obtain k v where x: "x = (k, v)" by (cases x)
  show ?case
    by (rule ext) (simp add: x Cons.IH map_add_def update_conv' split: option.splits)
qed

lemma fromEntries_lookup: "map_of (fromEntries es) = map_of (rev es)"
  by (simp add: fromEntries_def fold_update_lookup)


lemma fromEntries_distinct_aux:
  "distinct (map fst acc) \<Longrightarrow> distinct (map fst (fold (\<lambda>(k, v) note. AList.update k v note) es acc))"
  by (induction es arbitrary: acc) (auto simp add: distinct_update)

lemma fromEntries_distinct: "distinct (map fst (fromEntries es))"
  by (simp add: fromEntries_def fromEntries_distinct_aux)

lemma getNote_unfold:
  "getNote l i titleFilter secrets w =
     (let w3 = w\<lparr>trace := trace w @ [retrieving titleFilter, Db_select_transactions (login secrets)]
                    @ map DecryptTransaction (secure_note_rows secrets w)\<rparr>
      in case Promise_all (map (\<lambda>t. decryptTransaction l t secrets) (secure_note_rows secrets w)) of
           Inl e \<Rightarrow> (Inl e, w3)
         | Inr notesDecrypted \<Rightarrow>
             (case try_map (beautify l) notesDecrypted of
                Inl e \<Rightarrow> (Inl e, w3)
              | Inr beautifiedNotes \<Rightarrow>
                  (case matchNotes l titleFilter beautifiedNotes of
                     Inl e \<Rightarrow> (Inl e, w3)
                   | Inr matchedNotes \<Rightarrow> selectNote i titleFilter matchedNotes w3)))"
  by (simp add: getNote_def decryptSecureNotesTransactions_def secure_note_rows_def retrieving_def
      log_def Let_def split: sum.splits)


text \<open>
  Claim C8. For a decrypted payload whose attribute keys all have a first character,
  the reshaping gives the note built from the entries in order, each under the name that
  is its key with the first character lower-cased and the rest unchanged, with the
  entry's data as value; a name that occurs several times has the value of its last
  entry. No key is treated specially. (The rule needs a first character: for an empty
  key the code reads \<^verbatim>\<open>key[0]\<close>, which is \<^verbatim>\<open>undefined\<close>, and throws.)
\<close>

theorem beautify_lowercases_first_character:
  assumes "\<forall>entry\<in>set item. key entry \<noteq> []"
  shows "beautify l item =
           Inr (fromEntries (map (\<lambda>entry. (toLowerCase l [hd (key entry)] @ tl (key entry), cdata entry)) item))
       \<and> map_of (fromEntries (map (\<lambda>entry. (toLowerCase l [hd (key entry)] @ tl (key entry), cdata entry)) item)) =
           map_of (rev (map (\<lambda>entry. (toLowerCase l [hd (key entry)] @ tl (key entry), cdata entry)) item))"
proof -
  have "beautifyEntry l entry = Inr (toLowerCase l [hd (key entry)] @ tl (key entry), cdata entry)"
    if "entry \<in> set item" for entry
    using that assms by (cases "key entry") (auto simp add: beautifyEntry_def)
  then have "try_map (beautifyEntry l) item =
      Inr (map (\<lambda>entry. (toLowerCase l [hd (key entry)] @ tl (key entry), cdata entry)) item)"
    by (rule try_map_succeeds)
  then show ?thesis by (simp add: beautify_def fromEntries_lookup)
qed


theorem beautify_lowercases_first_character_witness:
  "''OtpSecret'' \<noteq> [] \<and> ''Title'' \<noteq> [] \<and> ''myField'' \<noteq> []
   \<and> beautify ref_lib
        [\<lparr>key = ''OtpSecret'', cdata = ''JBSW''\<rparr>, \<lparr>key = ''Title'', cdata = ''Mail''\<rparr>,
         \<lparr>key = ''myField'', cdata = ''x''\<rparr>] =
       Inr [(''otpSecret'', ''JBSW''), (''title'', ''Mail''), (''myField'', ''x'')]"
proof -
  let ?item = "[\<lparr>key = ''OtpSecret'', cdata = ''JBSW''\<rparr>, \<lparr>key = ''Title'', cdata = ''Mail''\<rparr>,
                \<lparr>key = ''myField'', cdata = ''x''\<rparr>]"
  have h: "\<forall>entry\<in>set ?item. key entry \<noteq> []" by simp
  show ?thesis
    using h beautify_lowercases_first_character [OF h, of ref_lib]
    by (simp add: fromEntries_def ref_lib_def lower_char_def)
qed

text \<open>The branch the theorem leaves out: an entry with the empty key makes the reshaping throw.\<close>

lemma beautify_empty_key:
  "beautify l [\<lparr>key = [], cdata = v\<rparr>] = Inl TypeError"
  by (simp add: beautify_def beautifyEntry_def)


lemma Array_sort_result:
  assumes "Array_sort notes = Inr ms"
  shows "ms = notes"
  using assms by (simp add: Array_sort_def split: if_splits)



text \<open>
  The branches the theorem leaves out: a note with no title makes a filter throw, and
  among two or more kept notes one with a field \<^verbatim>\<open>toString\<close> makes the sort throw.
\<close>

lemma title_filter_without_title:
  "matchNotes l (Some ''x'') [ [(''content'', v)] ] = Inl TypeError"
  by (simp add: matchNotes_def title_matches_def)

lemma sort_throws_on_toString:
  "matchNotes l None [ [(''title'', t), (''toString'', v)], n ] = Inl TypeError"
  by (simp add: matchNotes_def Array_sort_def)

text \<open>The examples of the filter: two notes, and the filters \<open>wifi\<close>, \<open>WIFI\<close> and \<open>xyz\<close>.\<close>

lemma title_filter_examples:
  "matchNotes ref_lib (Some ''wifi'') [wifi_note, bank_note] = Inr [wifi_note]"
  "matchNotes ref_lib (Some ''WIFI'') [wifi_note, bank_note] = Inr [wifi_note]"
  "matchNotes ref_lib (Some ''xyz'') [wifi_note, bank_note] = Inr []"
  "matchNotes ref_lib None [wifi_note, bank_note] = Inr [wifi_note, bank_note]"
  by (simp_all add: matchNotes_def Array_sort_def title_matches_def wifi_note_def bank_note_def
      ref_lib_def lower_char_def)

text \<open>
  Claim C4. If the decryption of one of the secure-note transactions of the batch
  fails, \<^verbatim>\<open>getNote\<close> fails with the error of a failing transaction, and its calls to the
  outside stop with the decryptions: no note is printed and the user is not asked to
  choose, so no remaining note is carried forward.
\<close>

theorem decryption_failure_aborts_getNote:
  assumes "t \<in> set (secure_note_rows secrets w)" and "decryptTransaction l t secrets = Inl e"
  shows "(\<exists>t' e'. t' \<in> set (secure_note_rows secrets w) \<and> decryptTransaction l t' secrets = Inl e'
            \<and> fst (getNote l i titleFilter secrets w) = Inl e')
       \<and> trace (snd (getNote l i titleFilter secrets w)) =
           trace w @ [retrieving titleFilter, Db_select_transactions (login secrets)]
             @ map DecryptTransaction (secure_note_rows secrets w)
       \<and> (\<forall>c. Console_log c \<notin> set (trace (snd (getNote l i titleFilter secrets w))) - set (trace w))
       \<and> (\<forall>ns b. AskSecureNoteChoice ns b \<notin>
             set (trace (snd (getNote l i titleFilter secrets w))) - set (trace w))"
proof -
  let ?ps = "map (\<lambda>t. decryptTransaction l t secrets) (secure_note_rows secrets w)"
  have "decryptTransaction l t secrets \<in> set ?ps" using assms(1) by simp
  then obtain e' where e': "Promise_all ?ps = Inl e'"
    unfolding Promise_all_def using try_map_fails [of "decryptTransaction l t secrets" ?ps "\<lambda>p. p" e] assms(2)
    by auto
  then have "\<exists>p\<in>set ?ps. p = Inl e'"
    unfolding Promise_all_def using try_map_error_from [of "\<lambda>p. p" ?ps e'] by simp
  then obtain t' where "t' \<in> set (secure_note_rows secrets w)" "decryptTransaction l t' secrets = Inl e'"
    by auto
  then show ?thesis using e' by (auto simp add: getNote_unfold retrieving_def)
qed


lemma ref_rows:
  "secure_note_rows first_run_secrets notes_world =
     [note_row ''SECURENOTE'' ''wifi'', note_row ''SECURENOTE'' ''bank'']"
  "secure_note_rows first_run_secrets corrupt_world =
     [note_row ''SECURENOTE'' ''wifi'', note_row ''SECURENOTE'' ''garbage'',
      note_row ''SECURENOTE'' ''bank'']"
  by (simp_all add: secure_note_rows_def notes_world_def corrupt_world_def world0_def note_row_def
      first_run_secrets_def)

theorem decryption_failure_aborts_getNote_witness:
  "note_row ''SECURENOTE'' ''garbage'' \<in> set (secure_note_rows first_run_secrets corrupt_world)
   \<and> decryptTransaction ref_lib (note_row ''SECURENOTE'' ''garbage'') first_run_secrets = Inl DecryptionFailed
   \<and> fst (getNote ref_lib ref_io None first_run_secrets corrupt_world) = Inl DecryptionFailed
   \<and> trace (snd (getNote ref_lib ref_io None first_run_secrets corrupt_world)) =
       trace corrupt_world @ [retrieving None, Db_select_transactions (login first_run_secrets)]
         @ map DecryptTransaction (secure_note_rows first_run_secrets corrupt_world)"
proof -
  have h1: "note_row ''SECURENOTE'' ''garbage'' \<in> set (secure_note_rows first_run_secrets corrupt_world)"
    by (simp add: ref_rows)
  have h2: "decryptTransaction ref_lib (note_row ''SECURENOTE'' ''garbage'') first_run_secrets =
      Inl DecryptionFailed"
    by (simp add: ref_lib_def ref_decryptTransaction_def note_row_def)
  have only: "decryptTransaction ref_lib t first_run_secrets = Inl e' \<Longrightarrow> e' = DecryptionFailed" for t e'
    by (simp add: ref_lib_def ref_decryptTransaction_def split: if_splits)
  show ?thesis
    using h1 h2 only decryption_failure_aborts_getNote [OF h1 h2, of ref_io None]
    by auto
qed



text \<open>
  The branch the theorem leaves out: with two or more candidates of which one has a field
  \<^verbatim>\<open>toString\<close>, the sort throws and \<^verbatim>\<open>getNote\<close> fails before it asks or prints.
\<close>

lemma getNote_sort_throws:
  assumes "Promise_all (map (\<lambda>t. decryptTransaction l t secrets) (secure_note_rows secrets w)) = Inr ds"
      and "try_map (beautify l) ds = Inr bs"
      and "(if falsy titleFilter then Inr bs
            else try_filter (title_matches l (toLowerCase l (the titleFilter))) bs) = Inr ms"
      and "2 \<le> length ms" and "n \<in> set ms" and "map_of n ''toString'' = Some v"
  shows "fst (getNote l i titleFilter secrets w) = Inl TypeError
       \<and> trace (snd (getNote l i titleFilter secrets w)) =
           trace w @ [retrieving titleFilter, Db_select_transactions (login secrets)]
             @ map DecryptTransaction (secure_note_rows secrets w)"
proof -
  have "list_ex (\<lambda>n. map_of n ''toString'' \<noteq> None) ms"
    using assms(5,6) by (auto simp add: list_ex_iff)
  then have "matchNotes l titleFilter bs = Inl TypeError"
    using assms(3,4) by (simp add: matchNotes_def Array_sort_def)
  then show ?thesis using assms(1,2) by (simp add: getNote_unfold)
qed

end
